theory Spec2Isabelle
  imports Complex_Main
begin

section \<open>Strings of the host language\<close>

text \<open>
  A TypeScript string is a sequence of code units and \<open>length\<close> counts them. It is
  modelled as \<^typ>\<open>string\<close>, one \<^typ>\<open>char\<close> per code unit. The value
  \<open>undefined\<close> of an optional field or result is \<open>None\<close>.
\<close>

definition jsSlice :: "string \<Rightarrow> nat \<Rightarrow> nat \<Rightarrow> string" where
  \<comment> \<open>\<open>s.slice(from, to)\<close> for non-negative arguments.\<close>
  "jsSlice s from to = take (to - from) (drop from s)"

definition jsSliceFromEnd :: "string \<Rightarrow> nat \<Rightarrow> string" where
  \<comment> \<open>\<open>s.slice(-k)\<close>: the last \<open>k\<close> code units; \<open>-0\<close> is \<open>0\<close>, so
      \<open>s.slice(-0)\<close> is the whole of \<open>s\<close>.\<close>
  "jsSliceFromEnd s k = (if k = 0 then s else drop (length s - k) s)"

section \<open>Document chunker (utils.ts)\<close>

record ChunkOptions =
  minSize :: "nat option"
  maxSize :: "nat option"
  overlap :: "nat option"

text \<open>
  The destructuring \<open>const { minSize = 50, maxSize = 500, overlap = 50 } = options\<close>:
  a field that is absent takes its default.
\<close>

definition minSizeOf :: "ChunkOptions \<Rightarrow> nat" where
  "minSizeOf options = (case minSize options of None \<Rightarrow> 50 | Some n \<Rightarrow> n)"

definition maxSizeOf :: "ChunkOptions \<Rightarrow> nat" where
  "maxSizeOf options = (case maxSize options of None \<Rightarrow> 500 | Some n \<Rightarrow> n)"

definition overlapOf :: "ChunkOptions \<Rightarrow> nat" where
  "overlapOf options = (case overlap options of None \<Rightarrow> 50 | Some n \<Rightarrow> n)"

subsection \<open>simpleChunk\<close>

text \<open>
  The assignment \<open>start = end - overlap > start ? end - overlap : end\<close> of the loop
  body, where \<open>end = Math.min(start + maxSize, content.length)\<close>. The source subtracts
  in signed arithmetic; a negative \<open>end - overlap\<close> is not greater than \<open>start\<close>,
  and neither is the truncated difference \<open>0\<close>.
\<close>

definition windowEnd :: "nat \<Rightarrow> nat \<Rightarrow> nat \<Rightarrow> nat" where
  "windowEnd mx len start = min (start + mx) len"

definition nextStart :: "nat \<Rightarrow> nat \<Rightarrow> nat \<Rightarrow> nat \<Rightarrow> nat" where
  "nextStart mx ov len start =
     (let e = windowEnd mx len start in if e - ov > start then e - ov else e)"

text \<open>
  The \<open>while (start < content.length)\<close> loop. The loop may run forever (a window of
  size \<open>0\<close> never advances), so not returning is the value \<open>None\<close>. The list
  \<open>chunks\<close> is unbounded, so \<open>chunks.push\<close> does not fail and the handler of the
  engine's \<open>RangeError\<close> has no branch here.
\<close>

partial_function (option) simpleChunkLoop ::
  "string \<Rightarrow> nat \<Rightarrow> nat \<Rightarrow> nat \<Rightarrow> string list \<Rightarrow> string list option" where
  "simpleChunkLoop content mx ov start chunks =
     (if start < length content then
        (let e = windowEnd mx (length content) start;
             chunk = jsSlice content start e;
             chunks' = chunks @ [chunk];
             start' = nextStart mx ov (length content) start
         in if e = length content then Some chunks'
            else simpleChunkLoop content mx ov start' chunks')
      else Some chunks)"

declare simpleChunkLoop.simps [code]

definition keepChunk :: "nat \<Rightarrow> nat \<Rightarrow> nat \<times> string \<Rightarrow> bool" where
  \<comment> \<open>\<open>chunk.length >= minSize || index === chunks.length - 1\<close>\<close>
  "keepChunk mn n ic = (case ic of (index, chunk) \<Rightarrow> length chunk \<ge> mn \<or> index + 1 = n)"

definition simpleChunk :: "string \<Rightarrow> ChunkOptions \<Rightarrow> string list option" where
  "simpleChunk content options =
     (case simpleChunkLoop content (maxSizeOf options) (overlapOf options) 0 [] of
        None \<Rightarrow> None
      | Some chunks \<Rightarrow>
          Some (map snd (filter (keepChunk (minSizeOf options) (length chunks))
                           (enumerate 0 chunks))))"

text \<open>
  The stepping rule in the words of the spec, to compare the loop with: the window
  advances by \<open>maxSize - overlap\<close>, and by the full window when the overlap is not
  below \<open>maxSize\<close>; the \<open>i\<close>-th window starts at \<open>i\<close> steps and is at most
  \<open>maxSize\<close> long.
\<close>

definition specStep :: "nat \<Rightarrow> nat \<Rightarrow> nat" where
  "specStep mx ov = (if ov < mx then mx - ov else mx)"

definition specWindow :: "string \<Rightarrow> nat \<Rightarrow> nat \<Rightarrow> nat \<Rightarrow> string" where
  "specWindow content mx ov i =
     jsSlice content (i * specStep mx ov) (min (i * specStep mx ov + mx) (length content))"

subsection \<open>combineChunks\<close>

text \<open>
  One pass of \<open>for (const chunk of chunks)\<close>, on the pair of \<open>result\<close> and
  \<open>currentChunk\<close>. The test \<open>currentChunk.length >= maxSize - overlap\<close> is signed in
  the source; a length is never below a negative bound, nor below the truncated \<open>0\<close>.
\<close>

definition combineStep ::
  "nat \<Rightarrow> nat \<Rightarrow> nat \<Rightarrow> string \<Rightarrow> string list \<times> string \<Rightarrow> string list \<times> string" where
  "combineStep mn mx ov chunk st =
     (case st of (result, currentChunk) \<Rightarrow>
        (let (result1, current1) =
               (if length currentChunk + length chunk > mx then
                  (if length currentChunk \<ge> mn then (result @ [currentChunk], chunk)
                   else (result, currentChunk @ '' '' @ chunk))
                else (result, currentChunk @ (if currentChunk \<noteq> [] then '' '' else []) @ chunk))
         in if length current1 \<ge> mx - ov
            then (result1 @ [current1], jsSliceFromEnd current1 ov)
            else (result1, current1)))"

definition combineChunks :: "string list \<Rightarrow> ChunkOptions \<Rightarrow> string list" where
  "combineChunks chunks options =
     (case fold (combineStep (minSizeOf options) (maxSizeOf options) (overlapOf options))
             chunks ([], []) of
        (result, currentChunk) \<Rightarrow>
          if length currentChunk \<ge> minSizeOf options then result @ [currentChunk] else result)"

section \<open>Stream decoder (utils.ts)\<close>

definition jsTruthy :: "string option \<Rightarrow> bool" where
  \<comment> \<open>truthiness of a value that is a string or \<open>undefined\<close>\<close>
  "jsTruthy v = (case v of None \<Rightarrow> False | Some s \<Rightarrow> s \<noteq> [])"

definition jsConcat :: "string \<Rightarrow> string option \<Rightarrow> string" where
  \<comment> \<open>\<open>s + v\<close>: the operator converts \<open>undefined\<close> to the text \<open>undefined\<close>\<close>
  "jsConcat s v = s @ (case v of None \<Rightarrow> ''undefined'' | Some t \<Rightarrow> t)"




datatype jsError = TypeError | SyntaxError

text \<open>
  The fields of \<open>StreamResponse\<close> (common/types) that the decoders read. A field the
  payload does not carry is \<open>None\<close>.
\<close>

record Delta =
  d_content :: "string option"

record Choice =
  ch_text :: "string option"
  ch_delta :: "Delta option"

record StreamResponse =
  sr_choices :: "Choice list option"
  sr_content :: "string option"
  sr_response :: "string option"

text \<open>
  Modelled from the spec: the enumeration \<open>apiProviders\<close> (common/types) is not part of
  the sources at hand. The spec names the provider kinds of the closed dispatch; a
  provider string that is none of the four named members reaches \<open>default\<close>.
\<close>

datatype apiProvider = Ollama | OpenWebUI | LlamaCpp | LiteLLM | OtherProvider string

definition firstChoice :: "StreamResponse \<Rightarrow> jsError + Choice" where
  \<comment> \<open>\<open>data.choices[0]\<close> as the object of a further property read: reading a property of
      \<open>undefined\<close> throws\<close>
  "firstChoice d =
     (case sr_choices d of
        None \<Rightarrow> Inl TypeError
      | Some [] \<Rightarrow> Inl TypeError
      | Some (c # cs) \<Rightarrow> Inr c)"

definition deltaContentOpt :: "StreamResponse option \<Rightarrow> jsError + string option" where
  \<comment> \<open>\<open>data?.choices[0].delta?.content\<close>\<close>
  "deltaContentOpt data =
     (case data of
        None \<Rightarrow> Inr None
      | Some d \<Rightarrow>
          (case firstChoice d of
             Inl e \<Rightarrow> Inl e
           | Inr c \<Rightarrow> (case ch_delta c of None \<Rightarrow> Inr None | Some dl \<Rightarrow> Inr (d_content dl))))"

definition deltaContent :: "StreamResponse option \<Rightarrow> jsError + string option" where
  \<comment> \<open>\<open>data?.choices[0].delta.content\<close>\<close>
  "deltaContent data =
     (case data of
        None \<Rightarrow> Inr None
      | Some d \<Rightarrow>
          (case firstChoice d of
             Inl e \<Rightarrow> Inl e
           | Inr c \<Rightarrow> (case ch_delta c of None \<Rightarrow> Inl TypeError | Some dl \<Rightarrow> Inr (d_content dl))))"

definition deltaContentOrEmpty :: "StreamResponse option \<Rightarrow> jsError + string option" where
  \<comment> \<open>\<open>data?.choices[0].delta?.content ? data?.choices[0].delta.content : ''\<close>\<close>
  "deltaContentOrEmpty data =
     (case deltaContentOpt data of
        Inl e \<Rightarrow> Inl e
      | Inr v \<Rightarrow> if jsTruthy v then deltaContent data else Inr (Some []))"

fun getChatDataFromProvider :: "apiProvider \<Rightarrow> StreamResponse option \<Rightarrow> jsError + string option" where
  "getChatDataFromProvider Ollama data = deltaContentOrEmpty data"
| "getChatDataFromProvider OpenWebUI data = deltaContentOrEmpty data"
| "getChatDataFromProvider LlamaCpp data =
     Inr (case data of None \<Rightarrow> None | Some d \<Rightarrow> sr_content d)"
| "getChatDataFromProvider provider data =
     (case deltaContent data of
        Inl e \<Rightarrow> Inl e
      | Inr v \<Rightarrow> if v = Some ''undefined'' then Inr (Some []) else deltaContentOrEmpty data)"

definition fimDefault :: "StreamResponse option \<Rightarrow> jsError + string option" where
  \<comment> \<open>the \<open>default\<close> branch of \<open>getFimDataFromProvider\<close>\<close>
  "fimDefault data =
     (case data of
        None \<Rightarrow> Inr None
      | Some d \<Rightarrow>
          (case sr_choices d of
             None \<Rightarrow> Inl TypeError
           | Some [] \<Rightarrow> Inr None
           | Some (c # cs) \<Rightarrow>
               if ch_text c = Some ''undefined'' then Inr (Some [])
               else if jsTruthy (ch_text c) then Inr (ch_text c) else Inr (Some [])))"

fun getFimDataFromProvider :: "apiProvider \<Rightarrow> StreamResponse option \<Rightarrow> jsError + string option" where
  "getFimDataFromProvider Ollama data =
     Inr (case data of None \<Rightarrow> None | Some d \<Rightarrow> sr_response d)"
| "getFimDataFromProvider OpenWebUI data =
     Inr (case data of None \<Rightarrow> None | Some d \<Rightarrow> sr_response d)"
| "getFimDataFromProvider LlamaCpp data =
     Inr (case data of None \<Rightarrow> None | Some d \<Rightarrow> sr_content d)"
| "getFimDataFromProvider LiteLLM data = deltaContent data"
| "getFimDataFromProvider (OtherProvider name) data = fimDefault data"




section \<open>Retrieval engine (ChatService)\<close>

definition isJsWhitespace :: "char \<Rightarrow> bool" where
  \<comment> \<open>the white space and line terminators of the language among the code units below 256\<close>
  "isJsWhitespace c =
     (c \<in> set [CHR 0x09, CHR 0x0A, CHR 0x0B, CHR 0x0C, CHR 0x0D, CHR 0x20, CHR 0xA0])"

definition jsTrimStart :: "string \<Rightarrow> string" where
  "jsTrimStart s = dropWhile isJsWhitespace s"

definition jsTrimEnd :: "string \<Rightarrow> string" where
  "jsTrimEnd s = rev (dropWhile isJsWhitespace (rev s))"

definition jsTrim :: "string \<Rightarrow> string" where
  "jsTrim s = jsTrimEnd (jsTrimStart s)"

fun jsJoin :: "string \<Rightarrow> string list \<Rightarrow> string" where
  "jsJoin sep [] = []"
| "jsJoin sep [x] = x"
| "jsJoin sep (x # y # ys) = x @ sep @ jsJoin sep (y # ys)"

definition jsJoinArrays :: "string \<Rightarrow> string list list \<Rightarrow> string" where
  \<comment> \<open>\<open>join\<close> on an array whose elements are arrays: each element is first converted to
      a string, and the string of an array is its \<open>join(',')\<close>\<close>
  "jsJoinArrays sep groups = jsJoin sep (map (jsJoin '','') groups)"

definition filterBoolean :: "string option list \<Rightarrow> string list" where
  \<comment> \<open>\<open>xs.filter(Boolean)\<close>: \<open>null\<close>, \<open>undefined\<close> and the empty string are dropped\<close>
  "filterBoolean xs = map the (filter jsTruthy xs)"

text \<open>
  The file system as \<open>fs.stat\<close> and \<open>fs.readFile\<close> see it: a path has no entry
  (\<open>stat\<close> throws), or an entry with its size in bytes and the outcome of reading it
  (\<open>None\<close> when \<open>readFile\<close> throws).
\<close>

datatype fsEntry = NoEntry | FileEntry nat "string option"

definition readFileContent ::
  "(string \<Rightarrow> fsEntry) \<Rightarrow> string option \<Rightarrow> nat option \<Rightarrow> string option" where
  "readFileContent fs filePath maxFileSizeArg =
     (let maxFileSize = (case maxFileSizeArg of None \<Rightarrow> 5 * 1024 | Some n \<Rightarrow> n)
      in if \<not> jsTruthy filePath then None
         else (case fs (the filePath) of
                 NoEntry \<Rightarrow> None
               | FileEntry sz text \<Rightarrow>
                   if sz > maxFileSize then None
                   else if sz = 0 then Some []
                   else text))"

text \<open>
  The loop \<open>for (let i = 0; i < relevantFiles.length; i++)\<close> of \<open>getRelevantCode\<close>.
  \<open>readFileContent\<close> catches its own errors and returns \<open>null\<close>, so the \<open>catch\<close>
  around the call is never entered.
\<close>

fun readFileChunks ::
  "(string \<Rightarrow> fsEntry) \<Rightarrow> real \<Rightarrow> (string \<times> real) list \<Rightarrow> string option list" where
  "readFileChunks fs readThreshould [] = []"
| "readFileChunks fs readThreshould ((path, score) # rest) =
     (if score > readThreshould
      then readFileContent fs (Some path) None # readFileChunks fs readThreshould rest
      else readFileChunks fs readThreshould rest)"


record EmbeddedDocument =
  doc_content :: "string option"

text \<open>
  What \<open>getRelevantCode\<close> reads from its collaborators: the embedding store, the
  workspace, the stored configuration, the reranker and the file system.
  \<open>DEFAULT_RERANK_THRESHOLD\<close> (common/constants) is the field \<open>defaultThreshold\<close>.
\<close>

record RetrievalEnv =
  hasDb :: bool
  workspaceName :: "string option"
  storedThreshold :: "real option"
  defaultThreshold :: real
  hasEmbeddingTable :: "string \<Rightarrow> bool"
  fetchModelEmbedding :: "string \<Rightarrow> bool"
  getDocuments :: "string \<Rightarrow> string \<Rightarrow> EmbeddedDocument list option"
  rerank :: "string \<Rightarrow> string list \<Rightarrow> real list option"
  fileSystem :: "string \<Rightarrow> fsEntry"

definition getRerankThreshold :: "RetrievalEnv \<Rightarrow> real" where
  \<comment> \<open>\<open>stored || DEFAULT_RERANK_THRESHOLD\<close>\<close>
  "getRerankThreshold env =
     (case storedThreshold env of
        None \<Rightarrow> defaultThreshold env
      | Some t \<Rightarrow> if t = 0 then defaultThreshold env else t)"

definition fileQuery :: "(string \<times> real) list \<Rightarrow> string" where
  \<comment> \<open>the inclusion filter by path; \<open>CHR 0x22\<close> is the double quote\<close>
  "fileQuery relevantFiles =
     (if relevantFiles \<noteq> [] then
        ''file IN ('' @ [CHR 0x22]
          @ jsJoin ([CHR 0x22] @ '','' @ [CHR 0x22]) (map fst relevantFiles)
          @ [CHR 0x22] @ '')''
      else [])"

definition documentChunks ::
  "EmbeddedDocument list \<Rightarrow> real list \<Rightarrow> real \<Rightarrow> string option list" where
  \<comment> \<open>\<open>documents.filter((_, index) => documentScores[index] > rerankThreshold)
        .map(({ content }) => content)\<close>; a score that is absent is not greater\<close>
  "documentChunks documents documentScores rerankThreshold =
     map (\<lambda>(index, item). doc_content item)
       (filter (\<lambda>(index, item). index < length documentScores
                                 \<and> documentScores ! index > rerankThreshold)
          (enumerate 0 documents))"

definition documentTexts :: "EmbeddedDocument list \<Rightarrow> string list" where
  \<comment> \<open>\<open>documents.map((item) => (item.content ? item.content.trim() : ''))\<close>\<close>
  "documentTexts documents =
     map (\<lambda>item. if jsTruthy (doc_content item) then jsTrim (the (doc_content item)) else [])
       documents"

definition getRelevantCode ::
  "RetrievalEnv \<Rightarrow> string option \<Rightarrow> (string \<times> real) list \<Rightarrow> string" where
  "getRelevantCode env text relevantFiles =
     (if \<not> hasDb env \<or> \<not> jsTruthy text \<or> \<not> jsTruthy (workspaceName env) then []
      else
        (let table = the (workspaceName env) @ ''-documents'';
             rerankThreshold = getRerankThreshold env
         in if hasEmbeddingTable env table then
              (if \<not> fetchModelEmbedding env (the text) then []
               else
                 (let documents =
                        (case getDocuments env table (fileQuery relevantFiles) of
                           None \<Rightarrow> [] | Some ds \<Rightarrow> ds)
                  in case rerank env (the text) (documentTexts documents) of
                       None \<Rightarrow> []
                     | Some documentScores \<Rightarrow>
                         jsTrim (jsJoinArrays [CHR 0x0A, CHR 0x0A]
                           [filterBoolean
                              (readFileChunks (fileSystem env) rerankThreshold relevantFiles),
                            filterBoolean
                              (documentChunks documents documentScores rerankThreshold)])))
            else []))"

section \<open>Completion session controller (ChatService)\<close>

text \<open>
  The messages posted to the webview, by event name. The \<open>data\<close> member of a value is
  the editor's language, read from the host, and is left out.
\<close>

datatype uiMessage =
    TwinnyOnCompletion string string
  | TwinnyOnEnd string string
  | TwinnyOnEndNoValue
  | TwinnyOnEndError string
  | TwinnySendLanguage
  | TwinnySendLoader string
  | TwinnySetTab
  | TwinnyOnLoading
  | TwinnyAddMessage

text \<open>
  What the controller does to the world, in order: \<open>abort()\<close> on an abort controller
  (named by a number), a transport opened with its abort controller, a message posted to
  the webview, the \<open>setContext\<close> command for the generating-text flag, a call of the
  caller's \<open>onEnd\<close> handler.
\<close>

datatype effect =
    Abort nat
  | OpenTransport nat
  | PostMessage uiMessage
  | SetGeneratingText bool
  | CallOnEnd string

datatype statusBarText = RobotFace | LoadingSpin | OtherText string

text \<open>
  The \<open>type\<close> of a message the webview sends to the extension. Of these only
  \<open>twinnyStopGeneration\<close> is read by the controller.
\<close>

datatype viewMessageType = TwinnyStopGeneration | OtherViewMessage string

record ChatService =
  cs_completion :: string
  cs_controller :: "nat option"
  cs_promptTemplate :: string
  cs_provider :: "apiProvider option"
  cs_view :: bool
  cs_statusBar :: statusBarText
  cs_effects :: "effect list"
  cs_stopListeners :: nat

record Message =
  m_role :: string
  m_content :: string

fun abortedHandles :: "effect list \<Rightarrow> nat list" where
  "abortedHandles [] = []"
| "abortedHandles (Abort h # es) = h # abortedHandles es"
| "abortedHandles (e # es) = abortedHandles es"

fun openedTransports :: "effect list \<Rightarrow> nat list" where
  "openedTransports [] = []"
| "openedTransports (OpenTransport h # es) = h # openedTransports es"
| "openedTransports (e # es) = openedTransports es"

fun postedMessages :: "effect list \<Rightarrow> uiMessage list" where
  "postedMessages [] = []"
| "postedMessages (PostMessage m # es) = m # postedMessages es"
| "postedMessages (e # es) = postedMessages es"

definition liveTransports :: "effect list \<Rightarrow> nat list" where
  \<comment> \<open>the transports opened and not aborted, while none has ended by itself\<close>
  "liveTransports es = filter (\<lambda>h. h \<notin> set (abortedHandles es)) (openedTransports es)"

definition emit :: "effect \<Rightarrow> ChatService \<Rightarrow> ChatService" where
  "emit e st = st\<lparr>cs_effects := cs_effects st @ [e]\<rparr>"

definition postMessage :: "uiMessage \<Rightarrow> ChatService \<Rightarrow> ChatService" where
  \<comment> \<open>\<open>this._view?.webview.postMessage(m)\<close>\<close>
  "postMessage m st = (if cs_view st then emit (PostMessage m) st else st)"

definition abortController :: "ChatService \<Rightarrow> ChatService" where
  \<comment> \<open>\<open>this._controller?.abort()\<close>\<close>
  "abortController st = (case cs_controller st of None \<Rightarrow> st | Some h \<Rightarrow> emit (Abort h) st)"

definition onStreamData :: "ChatService \<Rightarrow> StreamResponse option \<Rightarrow> bool \<Rightarrow> ChatService" where
  \<comment> \<open>\<open>onEnd\<close> is not called here; the argument says whether the caller supplied it.
      A throw of the decoder is caught: the assignment has not happened yet.\<close>
  "onStreamData st streamResponse onEnd =
     (case cs_provider st of
        None \<Rightarrow> st
      | Some provider \<Rightarrow>
          (case getChatDataFromProvider provider streamResponse of
             Inl error \<Rightarrow> st
           | Inr data \<Rightarrow>
               (let st1 = st\<lparr>cs_completion := jsConcat (cs_completion st) data\<rparr>
                in if onEnd then st1
                   else postMessage
                          (TwinnyOnCompletion (jsTrimStart (cs_completion st1))
                             (cs_promptTemplate st1)) st1)))"

definition onStreamEnd :: "ChatService \<Rightarrow> bool \<Rightarrow> ChatService" where
  "onStreamEnd st onEnd =
     (let st1 = emit (SetGeneratingText False) (st\<lparr>cs_statusBar := RobotFace\<rparr>)
      in if onEnd
         then postMessage TwinnyOnEndNoValue (emit (CallOnEnd (cs_completion st1)) st1)
         else postMessage
                (TwinnyOnEnd (jsTrimStart (cs_completion st1)) (cs_promptTemplate st1)) st1)"

definition onStreamError :: "ChatService \<Rightarrow> string \<Rightarrow> ChatService" where
  "onStreamError st errorMessage = postMessage (TwinnyOnEndError errorMessage) st"

text \<open>
  \<open>onStreamStart\<close> stores the abort controller, issues the context command and
  registers one more listener on the messages of the webview
  (\<open>this._view?.webview.onDidReceiveMessage\<close>); \<open>cs_stopListeners\<close> counts the
  listeners registered so far. Each listener, on a \<open>twinnyStopGeneration\<close> message,
  calls \<open>abort()\<close> on the controller tracked at that time.
\<close>

definition onStreamStart :: "ChatService \<Rightarrow> nat \<Rightarrow> ChatService" where
  "onStreamStart st controller =
     (let st1 = emit (SetGeneratingText True) (st\<lparr>cs_controller := Some controller\<rparr>)
      in if cs_view st1 then st1\<lparr>cs_stopListeners := cs_stopListeners st1 + 1\<rparr> else st1)"

definition stopListener :: "viewMessageType \<Rightarrow> ChatService \<Rightarrow> ChatService" where
  \<comment> \<open>the body of the listener registered by \<open>onStreamStart\<close>\<close>
  "stopListener t st = (if t = TwinnyStopGeneration then abortController st else st)"

definition receiveViewMessage :: "viewMessageType \<Rightarrow> ChatService \<Rightarrow> ChatService" where
  \<comment> \<open>the webview delivers a message to every registered listener\<close>
  "receiveViewMessage t st = ((stopListener t) ^^ cs_stopListeners st) st"

definition destroyStream :: "ChatService \<Rightarrow> ChatService" where
  "destroyStream st =
     (let st1 = abortController st;
          st2 = emit (SetGeneratingText True) (st1\<lparr>cs_statusBar := RobotFace\<rparr>)
      in postMessage
           (TwinnyOnEnd (jsTrimStart (cs_completion st2)) (cs_promptTemplate st2)) st2)"

text \<open>
  Modelled from the spec: the function \<open>streamResponse\<close> of the module \<open>./stream\<close> is
  not part of the sources at hand. By the spec a single abort handle is associated with
  the transport that a request opens: the model makes a fresh abort controller, hands it
  to \<open>onStart\<close> and opens the transport. Chunks, the end and errors arrive later
  through \<open>onStreamData\<close>, \<open>onStreamEnd\<close> and \<open>onStreamError\<close>.
\<close>

definition streamResponse :: "ChatService \<Rightarrow> ChatService" where
  "streamResponse st =
     (let controller = length (openedTransports (cs_effects st))
      in emit (OpenTransport controller) (onStreamStart st controller))"

definition sendEditorLanguage :: "ChatService \<Rightarrow> ChatService" where
  "sendEditorLanguage st = postMessage TwinnySendLanguage st"

definition updateLoadingMessage :: "string \<Rightarrow> ChatService \<Rightarrow> ChatService" where
  "updateLoadingMessage message st = postMessage (TwinnySendLoader message) st"

definition getRagContext :: "bool \<Rightarrow> ChatService \<Rightarrow> ChatService" where
  \<comment> \<open>its effect on the controller; \<open>ragActive\<close> is
      \<open>isRagEnabled && !symmetryConnected\<close>. The retrieved text goes into the request.\<close>
  "getRagContext ragActive st =
     (if ragActive then updateLoadingMessage ''Exploring knowledge base'' st else st)"

text \<open>
  \<open>streamChatCompletion\<close>. The request (system message, selection, retrieved context)
  is built from the collaborators and does not touch the controller's fields. Reading
  \<open>lastMessage.content\<close> of an empty message list throws. \<open>buildStreamRequest\<close>
  returns nothing when no provider is configured, and no stream is opened.
\<close>

definition streamChatCompletion ::
  "ChatService \<Rightarrow> Message list \<Rightarrow> bool \<Rightarrow> ChatService \<times> jsError option" where
  "streamChatCompletion st messages ragActive =
     (let st1 = sendEditorLanguage (st\<lparr>cs_completion := []\<rparr>)
      in if messages = [] then (st1, Some TypeError)
         else
           (let st2 = getRagContext ragActive st1;
                st3 = updateLoadingMessage ''Thinking'' st2
            in if cs_provider st3 = None then (st3, None)
               else (streamResponse st3, None)))"

definition getTemplateMessages :: "ChatService \<Rightarrow> string \<Rightarrow> bool \<Rightarrow> bool \<Rightarrow> ChatService" where
  "getTemplateMessages st template skipMessage ragActive =
     (let st1 = sendEditorLanguage
                  (st\<lparr>cs_statusBar := LoadingSpin, cs_completion := [],
                       cs_promptTemplate := template\<rparr>);
          st2 = (if \<not> skipMessage
                 then postMessage TwinnyAddMessage
                        (postMessage TwinnyOnLoading (postMessage TwinnySetTab st1))
                 else st1)
      in if template = ''explain'' then getRagContext ragActive st2 else st2)"

definition streamTemplateCompletion ::
  "ChatService \<Rightarrow> string \<Rightarrow> bool \<Rightarrow> bool \<Rightarrow> ChatService" where
  "streamTemplateCompletion st promptTemplate skipMessage ragActive =
     (let st1 = getTemplateMessages st promptTemplate skipMessage ragActive
      in if cs_provider st1 = None then st1 else streamResponse st1)"

section \<open>Concrete inputs\<close>

text \<open>
  The inputs at which the properties below are evaluated. The retrieval scenario follows
  the scenarios of the spec: a threshold of one half, files scored above and below it,
  a file of 6000 bytes, an empty file and a path that does not exist.
\<close>

definition scenarioFiles :: "string \<Rightarrow> fsEntry" where
  "scenarioFiles path =
     (if path = ''a.ts'' then FileEntry 1 (Some ''a'')
      else if path = ''b.ts'' then FileEntry 1 (Some ''b'')
      else if path = ''empty.ts'' then FileEntry 0 None
      else if path = ''big.ts'' then FileEntry 6000 (Some ''x'')
      else NoEntry)"

definition scenarioEnv :: RetrievalEnv where
  "scenarioEnv =
     \<lparr>hasDb = True, workspaceName = Some ''ws'', storedThreshold = None,
      defaultThreshold = 1 / 2,
      hasEmbeddingTable = (\<lambda>table. True), fetchModelEmbedding = (\<lambda>text. True),
      getDocuments = (\<lambda>table query. Some [\<lparr>doc_content = Some ''c''\<rparr>]),
      rerank = (\<lambda>text candidates. Some [9 / 10]),
      fileSystem = scenarioFiles\<rparr>"

definition idleService :: ChatService where
  \<comment> \<open>a controller that has not started a stream: no abort controller is tracked\<close>
  "idleService =
     \<lparr>cs_completion = [], cs_controller = None, cs_promptTemplate = [],
      cs_provider = Some Ollama, cs_view = True, cs_statusBar = RobotFace, cs_effects = [],
      cs_stopListeners = 0\<rparr>"

definition userMessage :: Message where
  "userMessage = \<lparr>m_role = ''user'', m_content = ''hi''\<rparr>"

definition endedService :: ChatService where
  \<comment> \<open>the controller after one chat stream has started and ended normally\<close>
  "endedService = onStreamEnd (fst (streamChatCompletion idleService [userMessage] False)) False"

definition spaceHiChunk :: StreamResponse where
  \<comment> \<open>a chat chunk whose delta is a space followed by \<open>hi\<close>\<close>
  "spaceHiChunk =
     \<lparr>sr_choices = Some [\<lparr>ch_text = None, ch_delta = Some \<lparr>d_content = Some '' hi''\<rparr>\<rparr>],
      sr_content = None, sr_response = None\<rparr>"

definition noChoicesChunk :: StreamResponse where
  \<comment> \<open>a chunk with an empty \<open>choices\<close> array\<close>
  "noChoicesChunk = \<lparr>sr_choices = Some [], sr_content = None, sr_response = None\<rparr>"

definition undefinedDeltaChunk :: StreamResponse where
  \<comment> \<open>a chunk whose delta content and text are the literal \<open>undefined\<close>\<close>
  "undefinedDeltaChunk =
     \<lparr>sr_choices = Some [\<lparr>ch_text = Some ''undefined'',
                            ch_delta = Some \<lparr>d_content = Some ''undefined''\<rparr>\<rparr>],
      sr_content = None, sr_response = Some ''undefined''\<rparr>"

section \<open>Properties of the document chunker\<close>

subsection \<open>Termination and shape of the fallback slicer\<close>

lemma simpleChunkLoop_terminates:
  "1 \<le> mx \<Longrightarrow> \<exists>r. simpleChunkLoop content mx ov start chunks = Some r"
proof (induction "length content - start" arbitrary: start chunks rule: less_induct)
  case less
  show ?case
  proof (cases "start < length content")
    case False
    then show ?thesis by (subst simpleChunkLoop.simps) simp
  next
    case True
    let ?s = "nextStart mx ov (length content) start"
    let ?c = "jsSlice content start (windowEnd mx (length content) start)"
    have "start < ?s"
      using True less.prems by (auto simp: nextStart_def windowEnd_def Let_def)
    then have "length content - ?s < length content - start"
      using True by arith
    from less.hyps [OF this less.prems]
    obtain r where "simpleChunkLoop content mx ov ?s (chunks @ [?c]) = Some r"
      by blast
    then show ?thesis
      by (subst simpleChunkLoop.simps) (simp add: Let_def)
  qed
qed

lemma simpleChunkLoop_empty: "simpleChunkLoop [] mx ov 0 [] = Some []"
  by (subst simpleChunkLoop.simps) simp

lemma simpleChunkLoop_one_window:
  "content \<noteq> [] \<Longrightarrow> length content \<le> mx \<Longrightarrow>
     simpleChunkLoop content mx ov 0 [] = Some [content]"
  by (subst simpleChunkLoop.simps) (simp add: Let_def windowEnd_def jsSlice_def)

text \<open>
  C9 (as amended). Empty content gives the empty sequence. Non-empty content shorter than
  \<open>minSize\<close> comes back as the single fragment that is the whole content, provided the
  content is no longer than \<open>maxSize\<close> (one window holds it); the fragment is kept by
  the last-fragment exemption of the filter.
\<close>

theorem simpleChunk_short_content:
  "simpleChunk [] options = Some [] \<and>
   (content \<noteq> [] \<and> length content < minSizeOf options \<and> length content \<le> maxSizeOf options
      \<longrightarrow> simpleChunk content options = Some [content])"
  by (simp add: simpleChunk_def simpleChunkLoop_empty simpleChunkLoop_one_window keepChunk_def)

theorem simpleChunk_short_content_witness:
  "simpleChunk [] \<lparr>minSize = Some 5, maxSize = Some 4, overlap = Some 1\<rparr> = Some [] \<and>
   length ''abc'' < minSizeOf \<lparr>minSize = Some 5, maxSize = Some 4, overlap = Some 1\<rparr> \<and>
   length ''abc'' \<le> maxSizeOf \<lparr>minSize = Some 5, maxSize = Some 4, overlap = Some 1\<rparr> \<and>
   simpleChunk ''abc'' \<lparr>minSize = Some 5, maxSize = Some 4, overlap = Some 1\<rparr> = Some [''abc'']"
  using simpleChunk_short_content
    [of "\<lparr>minSize = Some 5, maxSize = Some 4, overlap = Some 1\<rparr>" "''abc''"]
  by (simp add: minSizeOf_def maxSizeOf_def)

text \<open>
  C9 as stated fails when \<open>maxSize\<close> is below the length of the content: the content is
  cut into several windows, every window but the last is shorter than \<open>minSize\<close> and is
  dropped, and only the tail \<open>c\<close> of \<open>abc\<close> is returned.
\<close>

theorem simpleChunk_short_content_counterexample:
  "''abc'' \<noteq> [] \<and>
   length ''abc'' < minSizeOf \<lparr>minSize = Some 5, maxSize = Some 2, overlap = Some 0\<rparr> \<and>
   simpleChunk ''abc'' \<lparr>minSize = Some 5, maxSize = Some 2, overlap = Some 0\<rparr> = Some [''c''] \<and>
   simpleChunk ''abc'' \<lparr>minSize = Some 5, maxSize = Some 2, overlap = Some 0\<rparr> \<noteq> Some [''abc'']"
  by code_simp

lemma map_upt_Suc_shift: "map f [0..<Suc n] = f 0 # map (\<lambda>i. f (Suc i)) [0..<n]"
  by (simp add: upt_conv_Cons map_Suc_upt [symmetric] del: upt_Suc)

lemma loop_windows:
  assumes "1 \<le> mx"
  shows "\<exists>n. simpleChunkLoop content mx ov s acc
               = Some (acc @ map (\<lambda>i. jsSlice content (s + i * specStep mx ov)
                                     (min (s + i * specStep mx ov + mx) (length content))) [0..<n])
             \<and> ((n = 0) = (length content \<le> s))
             \<and> (\<forall>i. i + 1 < n \<longrightarrow> s + i * specStep mx ov + mx < length content)
             \<and> (0 < n \<longrightarrow> length content \<le> s + (n - 1) * specStep mx ov + mx)"
proof (induction "length content - s" arbitrary: s acc rule: less_induct)
  case less
  let ?st = "specStep mx ov"
  let ?W = "\<lambda>s i. jsSlice content (s + i * ?st) (min (s + i * ?st + mx) (length content))"
  have st1: "1 \<le> ?st" using assms by (auto simp: specStep_def)
  show ?case
  proof (cases "s < length content")
    case False
    then have "simpleChunkLoop content mx ov s acc = Some acc"
      by (subst simpleChunkLoop.simps) simp
    then show ?thesis using False by (intro exI [of _ 0]) simp
  next
    case True
    show ?thesis
    proof (cases "s + mx < length content")
      case False
      then have e: "windowEnd mx (length content) s = length content"
        by (simp add: windowEnd_def)
      have "simpleChunkLoop content mx ov s acc = Some (acc @ [?W s 0])"
        using True e False
        by (subst simpleChunkLoop.simps) (simp add: Let_def windowEnd_def)
      then show ?thesis using True False by (intro exI [of _ 1]) simp
    next
      case full: True
      then have e: "windowEnd mx (length content) s = s + mx"
        by (simp add: windowEnd_def)
      have ns: "nextStart mx ov (length content) s = s + ?st"
        using assms by (auto simp: nextStart_def e specStep_def Let_def)
      have lt: "length content - (s + ?st) < length content - s"
        using True st1 by arith
      from less [OF lt, of "acc @ [?W s 0]"]
      obtain n where r: "simpleChunkLoop content mx ov (s + ?st) (acc @ [?W s 0])
               = Some ((acc @ [?W s 0]) @ map (?W (s + ?st)) [0..<n])"
        and z: "(n = 0) = (length content \<le> s + ?st)"
        and a: "\<forall>i. i + 1 < n \<longrightarrow> s + ?st + i * ?st + mx < length content"
        and l: "0 < n \<longrightarrow> length content \<le> s + ?st + (n - 1) * ?st + mx"
        by blast
      have stle: "?st \<le> mx" by (simp add: specStep_def)
      have npos: "0 < n" using z full stle by (cases n) auto
      have step: "simpleChunkLoop content mx ov s acc
                    = simpleChunkLoop content mx ov (s + ?st) (acc @ [?W s 0])"
        using True full e ns
        by (subst simpleChunkLoop.simps) (simp add: Let_def)
      have shift: "map (?W s) [0..<Suc n] = ?W s 0 # map (?W (s + ?st)) [0..<n]"
        by (simp only: map_upt_Suc_shift) (simp add: add.assoc)
      have res: "simpleChunkLoop content mx ov s acc = Some (acc @ map (?W s) [0..<Suc n])"
        by (simp only: step r shift) simp
      have a': "\<forall>i. i + 1 < Suc n \<longrightarrow> s + i * ?st + mx < length content"
      proof (intro allI impI)
        fix i assume i: "i + 1 < Suc n"
        show "s + i * ?st + mx < length content"
        proof (cases i)
          case 0
          then show ?thesis using full by simp
        next
          case (Suc j)
          then have "j + 1 < n" using i by simp
          with a have "s + ?st + j * ?st + mx < length content" by blast
          then show ?thesis using Suc by (simp add: add.assoc add.commute)
        qed
      qed
      have l': "length content \<le> s + (Suc n - 1) * ?st + mx"
      proof -
        obtain m where m: "n = Suc m" using npos by (cases n) auto
        from l npos have "length content \<le> s + ?st + (n - 1) * ?st + mx" by blast
        then show ?thesis using m by (simp add: add.assoc add.commute)
      qed
      show ?thesis
        using res a' l' True by (intro exI [of _ "Suc n"]) simp
    qed
  qed
qed


lemma enumerate_map_upt:
  "enumerate 0 (map f [0..<n]) = map (\<lambda>i. (i, f i)) [0..<n]"
  by (simp add: enumerate_eq_zip zip_map2 zip_same_conv_map)

lemma keep_windows:
  "map snd (filter (keepChunk mn (length (map f [0..<n]))) (enumerate 0 (map f [0..<n])))
     = map f (filter (\<lambda>i. mn \<le> length (f i) \<or> i + 1 = n) [0..<n])"
  by (simp add: enumerate_map_upt filter_map comp_def keepChunk_def)

text \<open>
  C10. With \<open>maxSize\<close> at least \<open>1\<close>, \<open>simpleChunk\<close> returns on every content, and
  what its loop collects is exactly the windows of the stepping rule: window \<open>i\<close>
  starts at \<open>i\<close> steps of \<open>maxSize - overlap\<close> (of \<open>maxSize\<close> when \<open>overlap\<close> is not
  below \<open>maxSize\<close>), the step is at least \<open>1\<close>, every window but the last ends before
  the end of the content and the last reaches it; \<open>simpleChunk\<close> returns these windows
  filtered by \<open>minSize\<close> with the last one kept. Each iteration moves the start
  strictly forward, by one step on a full window.
\<close>

theorem simpleChunk_start_advances:
  assumes "1 \<le> maxSizeOf options"
  shows "1 \<le> specStep (maxSizeOf options) (overlapOf options) \<and>
         (\<exists>n. simpleChunkLoop content (maxSizeOf options) (overlapOf options) 0 []
                 = Some (map (specWindow content (maxSizeOf options) (overlapOf options)) [0..<n])
              \<and> ((n = 0) = (content = []))
              \<and> (\<forall>i. i + 1 < n \<longrightarrow>
                    i * specStep (maxSizeOf options) (overlapOf options) + maxSizeOf options
                      < length content)
              \<and> (0 < n \<longrightarrow>
                    length content
                      \<le> (n - 1) * specStep (maxSizeOf options) (overlapOf options)
                            + maxSizeOf options)
              \<and> simpleChunk content options
                  = Some (map (specWindow content (maxSizeOf options) (overlapOf options))
                            (filter (\<lambda>i. minSizeOf options
                                            \<le> length (specWindow content (maxSizeOf options)
                                                         (overlapOf options) i)
                                          \<or> i + 1 = n) [0..<n]))) \<and>
         (start < length content \<longrightarrow>
            start < nextStart (maxSizeOf options) (overlapOf options) (length content) start \<and>
            (start + maxSizeOf options \<le> length content \<longrightarrow>
               nextStart (maxSizeOf options) (overlapOf options) (length content) start =
                 start + specStep (maxSizeOf options) (overlapOf options)))"
proof -
  let ?mx = "maxSizeOf options" and ?ov = "overlapOf options"
  have s1: "1 \<le> specStep ?mx ?ov"
    using assms by (auto simp: specStep_def)
  have eq: "(\<lambda>i. jsSlice content (i * specStep ?mx ?ov)
                     (min (i * specStep ?mx ?ov + ?mx) (length content)))
              = specWindow content ?mx ?ov"
    by (rule ext) (simp add: specWindow_def)
  have "\<exists>n. simpleChunkLoop content ?mx ?ov 0 []
                 = Some (map (specWindow content ?mx ?ov) [0..<n])
              \<and> ((n = 0) = (content = []))
              \<and> (\<forall>i. i + 1 < n \<longrightarrow> i * specStep ?mx ?ov + ?mx < length content)
              \<and> (0 < n \<longrightarrow> length content \<le> (n - 1) * specStep ?mx ?ov + ?mx)"
    using loop_windows [OF assms, of content ?ov 0 "[]"] by (simp add: eq)
  then obtain n where r: "simpleChunkLoop content ?mx ?ov 0 []
                       = Some (map (specWindow content ?mx ?ov) [0..<n])"
    and z: "(n = 0) = (content = [])"
    and a: "\<forall>i. i + 1 < n \<longrightarrow> i * specStep ?mx ?ov + ?mx < length content"
    and l: "0 < n \<longrightarrow> length content \<le> (n - 1) * specStep ?mx ?ov + ?mx"
    by blast
  have sc: "simpleChunk content options
              = Some (map (specWindow content ?mx ?ov)
                        (filter (\<lambda>i. minSizeOf options \<le> length (specWindow content ?mx ?ov i)
                                      \<or> i + 1 = n) [0..<n]))"
    unfolding simpleChunk_def r by (simp only: option.case keep_windows)
  have n1: "start < length content \<longrightarrow>
            start < nextStart ?mx ?ov (length content) start"
    using assms by (auto simp: nextStart_def windowEnd_def Let_def)
  have n2: "start + ?mx \<le> length content \<longrightarrow>
               nextStart ?mx ?ov (length content) start = start + specStep ?mx ?ov"
    using assms by (auto simp: nextStart_def windowEnd_def Let_def specStep_def)
  from r z a l sc have ex: "\<exists>n. simpleChunkLoop content ?mx ?ov 0 []
                 = Some (map (specWindow content ?mx ?ov) [0..<n])
              \<and> ((n = 0) = (content = []))
              \<and> (\<forall>i. i + 1 < n \<longrightarrow> i * specStep ?mx ?ov + ?mx < length content)
              \<and> (0 < n \<longrightarrow> length content \<le> (n - 1) * specStep ?mx ?ov + ?mx)
              \<and> simpleChunk content options
                  = Some (map (specWindow content ?mx ?ov)
                            (filter (\<lambda>i. minSizeOf options
                                            \<le> length (specWindow content ?mx ?ov i)
                                          \<or> i + 1 = n) [0..<n]))"
    by blast
  from s1 ex n1 n2 show ?thesis by blast
qed

theorem simpleChunk_start_advances_witness:
  "1 \<le> maxSizeOf \<lparr>minSize = Some 2, maxSize = Some 4, overlap = Some 1\<rparr> \<and>
   specStep 4 1 = 3 \<and>
   simpleChunk ''abcdefghij'' \<lparr>minSize = Some 2, maxSize = Some 4, overlap = Some 1\<rparr>
     = Some [''abcd'', ''defg'', ''ghij''] \<and>
   map (specWindow ''abcdefghij'' 4 1) [0..<3] = [''abcd'', ''defg'', ''ghij''] \<and>
   nextStart 4 1 (length ''abcdefghij'') 0 = 3 \<and>
   simpleChunk ''abcdefghij'' \<lparr>minSize = Some 2, maxSize = Some 4, overlap = Some 7\<rparr>
     = Some [''abcd'', ''efgh'', ''ij'']"
proof -
  have h: "1 \<le> maxSizeOf \<lparr>minSize = Some 2, maxSize = Some 4, overlap = Some 1\<rparr>"
    by (simp add: maxSizeOf_def)
  have v: "simpleChunk ''abcdefghij'' \<lparr>minSize = Some 2, maxSize = Some 4, overlap = Some 1\<rparr>
     = Some [''abcd'', ''defg'', ''ghij'']"
    by code_simp
  have w: "map (specWindow ''abcdefghij'' 4 1) [0..<3] = [''abcd'', ''defg'', ''ghij'']"
    by code_simp
  have u: "simpleChunk ''abcdefghij'' \<lparr>minSize = Some 2, maxSize = Some 4, overlap = Some 7\<rparr>
     = Some [''abcd'', ''efgh'', ''ij'']"
    by code_simp
  have s: "specStep 4 1 = 3"
    by (simp add: specStep_def)
  have o: "overlapOf \<lparr>minSize = Some 2, maxSize = Some 4, overlap = Some 1\<rparr> = 1 \<and>
           maxSizeOf \<lparr>minSize = Some 2, maxSize = Some 4, overlap = Some 1\<rparr> = 4"
    by (simp add: overlapOf_def maxSizeOf_def)
  from simpleChunk_start_advances [OF h, of "''abcdefghij''" 0]
  have "nextStart 4 1 (length ''abcdefghij'') 0 = 0 + specStep 4 1"
    using o by simp
  then show ?thesis
    using h v w u s by simp
qed

subsection \<open>Fragment sizes after combining\<close>

lemma jsSliceFromEnd_length: "length (jsSliceFromEnd s k) \<le> length s"
  by (simp add: jsSliceFromEnd_def)

lemma combineStep_bound:
  assumes "length chunk \<le> m"
    and "\<forall>r \<in> set result. length r \<le> max (mx + 1) (mn + m)"
    and "length cur \<le> max (mx + 1) (mn + m)"
    and "combineStep mn mx ov chunk (result, cur) = (result', cur')"
  shows "(\<forall>r \<in> set result'. length r \<le> max (mx + 1) (mn + m)) \<and>
         length cur' \<le> max (mx + 1) (mn + m)"
proof -
  let ?B = "max (mx + 1) (mn + m)"
  obtain result1 current1 where s1: "(result1, current1) =
               (if length cur + length chunk > mx then
                  (if length cur \<ge> mn then (result @ [cur], chunk)
                   else (result, cur @ '' '' @ chunk))
                else (result, cur @ (if cur \<noteq> [] then '' '' else []) @ chunk))"
    by (cases "length cur + length chunk > mx"; cases "length cur \<ge> mn"; simp)
  have b1: "(\<forall>r \<in> set result1. length r \<le> ?B) \<and> length current1 \<le> ?B"
    using s1 assms(1-3) by (auto split: if_splits)
  have "(result', cur') = (if length current1 \<ge> mx - ov
            then (result1 @ [current1], jsSliceFromEnd current1 ov)
            else (result1, current1))"
    using assms(4) s1 [symmetric] by (simp add: combineStep_def Let_def)
  then show ?thesis
    using b1 jsSliceFromEnd_length [of current1 ov] by (auto split: if_splits)
qed

lemma combineFold_bound:
  assumes "\<forall>c \<in> set chunks. length c \<le> m"
    and "\<forall>r \<in> set result. length r \<le> max (mx + 1) (mn + m)"
    and "length cur \<le> max (mx + 1) (mn + m)"
    and "fold (combineStep mn mx ov) chunks (result, cur) = (result', cur')"
  shows "(\<forall>r \<in> set result'. length r \<le> max (mx + 1) (mn + m)) \<and>
         length cur' \<le> max (mx + 1) (mn + m)"
  using assms
proof (induction chunks arbitrary: result cur)
  case Nil
  then show ?case by simp
next
  case (Cons c cs)
  obtain r1 c1 where st: "combineStep mn mx ov c (result, cur) = (r1, c1)"
    by (cases "combineStep mn mx ov c (result, cur)") simp
  have len: "length c \<le> m"
    using Cons.prems(1) by simp
  have b: "(\<forall>r \<in> set r1. length r \<le> max (mx + 1) (mn + m)) \<and>
           length c1 \<le> max (mx + 1) (mn + m)"
    by (rule combineStep_bound [OF len Cons.prems(2) Cons.prems(3) st])
  have f: "fold (combineStep mn mx ov) cs (r1, c1) = (result', cur')"
    using Cons.prems(4) st by simp
  show ?case
    using Cons.IH [of r1 c1] Cons.prems(1) b f by simp
qed

text \<open>
  C2 (as amended). When no input fragment is longer than \<open>m\<close>, no fragment that
  \<open>combineChunks\<close> emits is longer than the greater of \<open>maxSize + 1\<close> and
  \<open>minSize + m\<close>: a join puts a separator between two parts whose lengths were tested
  without it, and an accumulator still shorter than \<open>minSize\<close> absorbs the next
  fragment whatever the sum.
\<close>

theorem combineChunks_fragment_bound:
  assumes "\<forall>c \<in> set chunks. length c \<le> m"
    and "f \<in> set (combineChunks chunks options)"
  shows "length f \<le> max (maxSizeOf options + 1) (minSizeOf options + m)"
proof -
  obtain result cur where fd:
    "fold (combineStep (minSizeOf options) (maxSizeOf options) (overlapOf options))
       chunks ([], []) = (result, cur)"
    by (cases "fold (combineStep (minSizeOf options) (maxSizeOf options) (overlapOf options))
       chunks ([], [])") simp
  have "(\<forall>r \<in> set result. length r \<le> max (maxSizeOf options + 1) (minSizeOf options + m))
        \<and> length cur \<le> max (maxSizeOf options + 1) (minSizeOf options + m)"
    by (rule combineFold_bound [OF assms(1) _ _ fd]) simp_all
  moreover have "f \<in> set result \<or> f = cur"
    using assms(2) fd by (auto simp: combineChunks_def split: if_splits)
  ultimately show ?thesis by blast
qed

theorem combineChunks_fragment_bound_witness:
  "length ''aaaa'' \<le> 4 \<and> length ''bbbb'' \<le> 4 \<and>
   ''a bbbb'' \<in> set (combineChunks [''aaaa'', ''bbbb'']
      \<lparr>minSize = Some 1, maxSize = Some 5, overlap = Some 1\<rparr>) \<and>
   length ''a bbbb'' \<le> max (maxSizeOf \<lparr>minSize = Some 1, maxSize = Some 5, overlap = Some 1\<rparr> + 1)
      (minSizeOf \<lparr>minSize = Some 1, maxSize = Some 5, overlap = Some 1\<rparr> + 4)"
proof -
  have h1: "\<forall>c \<in> set [''aaaa'', ''bbbb'']. length c \<le> 4"
    by simp
  have h2: "''a bbbb'' \<in> set (combineChunks [''aaaa'', ''bbbb'']
      \<lparr>minSize = Some 1, maxSize = Some 5, overlap = Some 1\<rparr>)"
    by code_simp
  show ?thesis
    using h2 combineChunks_fragment_bound [OF h1 h2] by simp
qed

text \<open>
  C2 as stated fails: both input fragments have length \<open>4\<close>, within \<open>maxSize = 5\<close>,
  and the second emitted fragment has length \<open>6\<close>. The accumulator holds the overlap
  \<open>a\<close>; \<open>1 + 4\<close> does not exceed \<open>5\<close>, and the join adds the separator.
\<close>

theorem combineChunks_fragment_bound_counterexample:
  "length ''aaaa'' \<le> maxSizeOf \<lparr>minSize = Some 1, maxSize = Some 5, overlap = Some 1\<rparr> \<and>
   length ''bbbb'' \<le> maxSizeOf \<lparr>minSize = Some 1, maxSize = Some 5, overlap = Some 1\<rparr> \<and>
   combineChunks [''aaaa'', ''bbbb''] \<lparr>minSize = Some 1, maxSize = Some 5, overlap = Some 1\<rparr>
     = [''aaaa'', ''a bbbb'', ''b''] \<and>
   length ''a bbbb'' > maxSizeOf \<lparr>minSize = Some 1, maxSize = Some 5, overlap = Some 1\<rparr>"
  by code_simp

section \<open>Properties of the stream decoder\<close>

text \<open>
  C3 (as amended). The guard against the literal \<open>undefined\<close> is in two places. The chat
  decoder returns the empty string for it under LiteLLM and under every provider that
  reaches \<open>default\<close>, on the content of the first choice's delta. The fill-in-middle
  decoder returns the empty string for it under the providers that reach \<open>default\<close>, on
  the text of the first choice.
\<close>

theorem undefined_literal_guard:
  "((provider = LiteLLM \<or> provider = OtherProvider name) \<and>
      sr_choices d = Some (c # cs) \<and> ch_delta c = Some dl \<and> d_content dl = Some ''undefined''
      \<longrightarrow> getChatDataFromProvider provider (Some d) = Inr (Some [])) \<and>
   (sr_choices d = Some (c # cs) \<and> ch_text c = Some ''undefined''
      \<longrightarrow> getFimDataFromProvider (OtherProvider name) (Some d) = Inr (Some []))"
  by (auto simp: deltaContent_def firstChoice_def fimDefault_def)

theorem undefined_literal_guard_witness:
  "getChatDataFromProvider LiteLLM (Some undefinedDeltaChunk) = Inr (Some []) \<and>
   getFimDataFromProvider (OtherProvider ''lmstudio'') (Some undefinedDeltaChunk) = Inr (Some [])"
  using undefined_literal_guard [of LiteLLM "''lmstudio''" undefinedDeltaChunk
    "\<lparr>ch_text = Some ''undefined'', ch_delta = Some \<lparr>d_content = Some ''undefined''\<rparr>\<rparr>"
    "[]" "\<lparr>d_content = Some ''undefined''\<rparr>"]
  by (simp add: undefinedDeltaChunk_def)

text \<open>
  C3 as stated fails: the Ollama branch of the chat decoder, the Ollama branch of the
  fill-in-middle decoder (which reads \<open>response\<close>) and the LiteLLM branch of the
  fill-in-middle decoder have no guard, and the literal comes back as the delta.
\<close>

theorem undefined_literal_guard_counterexample:
  "getChatDataFromProvider Ollama (Some undefinedDeltaChunk) = Inr (Some ''undefined'') \<and>
   getFimDataFromProvider LiteLLM (Some undefinedDeltaChunk) = Inr (Some ''undefined'') \<and>
   getFimDataFromProvider Ollama (Some undefinedDeltaChunk) = Inr (Some ''undefined'')"
  by code_simp






section \<open>Properties of the retrieval engine\<close>

lemma jsJoinArrays_two:
  "jsJoinArrays sep [xs, ys] = jsJoin '','' xs @ sep @ jsJoin '','' ys"
  by (simp add: jsJoinArrays_def)

text \<open>
  C5 (as amended). When the guards of \<open>getRelevantCode\<close> pass and the reranker returns
  scores, the code block is: the admitted file reads joined by commas, then a blank line,
  then the admitted code fragments joined by commas, the whole trimmed. The groups are
  arrays inside the joined array, and an array is converted to text with commas.
\<close>

theorem getRelevantCode_block:
  assumes "hasDb env" and "jsTruthy text" and "jsTruthy (workspaceName env)"
    and "hasEmbeddingTable env (the (workspaceName env) @ ''-documents'')"
    and "fetchModelEmbedding env (the text)"
    and "documents = (case getDocuments env (the (workspaceName env) @ ''-documents'')
                             (fileQuery relevantFiles) of None \<Rightarrow> [] | Some ds \<Rightarrow> ds)"
    and "rerank env (the text) (documentTexts documents) = Some documentScores"
  shows "getRelevantCode env text relevantFiles =
           jsTrim (jsJoin '',''
                     (filterBoolean
                        (readFileChunks (fileSystem env) (getRerankThreshold env) relevantFiles))
                   @ [CHR 0x0A, CHR 0x0A]
                   @ jsJoin '',''
                       (filterBoolean
                          (documentChunks documents documentScores (getRerankThreshold env))))"
  using assms by (simp add: getRelevantCode_def Let_def jsJoinArrays_two)

theorem getRelevantCode_block_witness:
  "getRelevantCode scenarioEnv (Some ''fix bug'')
      [(''a.ts'', 9 / 10), (''b.ts'', 8 / 10), (''c.ts'', 3 / 10)]
     = ''a,b'' @ [CHR 0x0A, CHR 0x0A] @ ''c''"
proof -
  let ?files = "[(''a.ts'', 9 / 10), (''b.ts'', 8 / 10), (''c.ts'', 3 / 10)]
                  :: (string \<times> real) list"
  let ?docs = "case getDocuments scenarioEnv (the (workspaceName scenarioEnv) @ ''-documents'')
                             (fileQuery ?files) of None \<Rightarrow> [] | Some ds \<Rightarrow> ds"
  have h1: "hasDb scenarioEnv"
    by (simp add: scenarioEnv_def)
  have h2: "jsTruthy (Some ''fix bug'')"
    by (simp add: jsTruthy_def)
  have h3: "jsTruthy (workspaceName scenarioEnv)"
    by (simp add: scenarioEnv_def jsTruthy_def)
  have h4: "hasEmbeddingTable scenarioEnv (the (workspaceName scenarioEnv) @ ''-documents'')"
    by (simp add: scenarioEnv_def)
  have h5: "fetchModelEmbedding scenarioEnv (the (Some ''fix bug''))"
    by (simp add: scenarioEnv_def)
  have h7: "rerank scenarioEnv (the (Some ''fix bug'')) (documentTexts ?docs) = Some [9 / 10]"
    by (simp add: scenarioEnv_def)
  have "getRelevantCode scenarioEnv (Some ''fix bug'') ?files =
           jsTrim (jsJoin '',''
                     (filterBoolean
                        (readFileChunks (fileSystem scenarioEnv)
                           (getRerankThreshold scenarioEnv) ?files))
                   @ [CHR 0x0A, CHR 0x0A]
                   @ jsJoin '',''
                       (filterBoolean
                          (documentChunks ?docs [9 / 10] (getRerankThreshold scenarioEnv))))"
    by (rule getRelevantCode_block [OF h1 h2 h3 h4 h5 refl h7])
  also have "\<dots> = ''a,b'' @ [CHR 0x0A, CHR 0x0A] @ ''c''"
    by code_simp
  finally show ?thesis .
qed

text \<open>
  C5 as stated fails: with two admitted file reads \<open>a\<close> and \<open>b\<close> and one admitted
  fragment \<open>c\<close>, the block has a comma between \<open>a\<close> and \<open>b\<close>, not a newline.
\<close>

theorem getRelevantCode_block_counterexample:
  "filterBoolean (readFileChunks scenarioFiles (1 / 2)
      [(''a.ts'', 9 / 10), (''b.ts'', 8 / 10), (''c.ts'', 3 / 10)]) = [''a'', ''b''] \<and>
   getRelevantCode scenarioEnv (Some ''fix bug'')
      [(''a.ts'', 9 / 10), (''b.ts'', 8 / 10), (''c.ts'', 3 / 10)]
     = ''a,b'' @ [CHR 0x0A, CHR 0x0A] @ ''c'' \<and>
   getRelevantCode scenarioEnv (Some ''fix bug'')
      [(''a.ts'', 9 / 10), (''b.ts'', 8 / 10), (''c.ts'', 3 / 10)]
     \<noteq> jsTrim (jsJoin [CHR 0x0A] [''a'', ''b''] @ [CHR 0x0A, CHR 0x0A]
                 @ jsJoin [CHR 0x0A] [''c''])"
  by code_simp

subsection \<open>Reading the files of the file stage\<close>











section \<open>Properties of the completion session controller\<close>

lemma abortedHandles_append:
  "abortedHandles (xs @ ys) = abortedHandles xs @ abortedHandles ys"
  by (induction xs rule: abortedHandles.induct) simp_all

lemma openedTransports_append:
  "openedTransports (xs @ ys) = openedTransports xs @ openedTransports ys"
  by (induction xs rule: openedTransports.induct) simp_all

lemma postedMessages_append:
  "postedMessages (xs @ ys) = postedMessages xs @ postedMessages ys"
  by (induction xs rule: postedMessages.induct) simp_all

lemma postMessage_fields:
  "cs_completion (postMessage m st) = cs_completion st"
  "cs_controller (postMessage m st) = cs_controller st"
  "cs_promptTemplate (postMessage m st) = cs_promptTemplate st"
  "cs_provider (postMessage m st) = cs_provider st"
  "cs_view (postMessage m st) = cs_view st"
  "cs_statusBar (postMessage m st) = cs_statusBar st"
  "abortedHandles (cs_effects (postMessage m st)) = abortedHandles (cs_effects st)"
  "openedTransports (cs_effects (postMessage m st)) = openedTransports (cs_effects st)"
  by (simp_all add: postMessage_def emit_def abortedHandles_append openedTransports_append)

lemma streamResponse_fields:
  "cs_controller (streamResponse st) = Some (length (openedTransports (cs_effects st)))"
  "abortedHandles (cs_effects (streamResponse st)) = abortedHandles (cs_effects st)"
  "openedTransports (cs_effects (streamResponse st)) =
     openedTransports (cs_effects st) @ [length (openedTransports (cs_effects st))]"
  by (simp_all add: streamResponse_def onStreamStart_def emit_def Let_def
      abortedHandles_append openedTransports_append)

lemma chat_prelude_fields:
  "cs_provider (updateLoadingMessage msg
      (getRagContext r (sendEditorLanguage (st\<lparr>cs_completion := []\<rparr>)))) = cs_provider st"
  "abortedHandles (cs_effects (updateLoadingMessage msg
      (getRagContext r (sendEditorLanguage (st\<lparr>cs_completion := []\<rparr>)))))
     = abortedHandles (cs_effects st)"
  "openedTransports (cs_effects (updateLoadingMessage msg
      (getRagContext r (sendEditorLanguage (st\<lparr>cs_completion := []\<rparr>)))))
     = openedTransports (cs_effects st)"
  by (simp_all add: updateLoadingMessage_def getRagContext_def sendEditorLanguage_def
      postMessage_fields)

lemma template_prelude_fields:
  "cs_provider (getTemplateMessages st template skipMessage r) = cs_provider st"
  "abortedHandles (cs_effects (getTemplateMessages st template skipMessage r))
     = abortedHandles (cs_effects st)"
  "openedTransports (cs_effects (getTemplateMessages st template skipMessage r))
     = openedTransports (cs_effects st)"
  by (simp_all add: getTemplateMessages_def Let_def updateLoadingMessage_def getRagContext_def
      sendEditorLanguage_def postMessage_fields)

lemma streamResponse_completion:
  "cs_completion (streamResponse st) = cs_completion st"
  by (simp add: streamResponse_def onStreamStart_def emit_def Let_def)

lemma chat_prelude_completion:
  "cs_completion (updateLoadingMessage msg
      (getRagContext r (sendEditorLanguage (st\<lparr>cs_completion := []\<rparr>)))) = []"
  by (simp add: updateLoadingMessage_def getRagContext_def sendEditorLanguage_def
      postMessage_fields)

lemma template_prelude_completion:
  "cs_completion (getTemplateMessages st template skipMessage r) = []"
  by (simp add: getTemplateMessages_def Let_def updateLoadingMessage_def getRagContext_def
      sendEditorLanguage_def postMessage_fields)

lemma liveTransports_kept:
  assumes "abortedHandles es' = abortedHandles es"
    and "openedTransports es' = openedTransports es @ [h]"
  shows "set (liveTransports es) \<subseteq> set (liveTransports es')"
  using assms by (auto simp: liveTransports_def)

text \<open>
  C1 (as amended). With a provider configured, \<open>streamChatCompletion\<close> (on a non-empty
  message list) and \<open>streamTemplateCompletion\<close> invoke no cancellation: they call
  \<open>abort()\<close> on no abort controller, so the aborted handles are the same after the call
  as before it. They reset the accumulated text, open one more transport, and
  \<open>onStreamStart\<close> makes its abort controller the tracked one, in place of the
  controller of the stream before. Every transport that was live before the call is live
  after it.
\<close>

theorem new_session_keeps_prior_transport:
  assumes "cs_provider st \<noteq> None" and "messages \<noteq> []"
  shows "abortedHandles (cs_effects (fst (streamChatCompletion st messages ragActive)))
           = abortedHandles (cs_effects st) \<and>
         cs_completion (fst (streamChatCompletion st messages ragActive)) = [] \<and>
         cs_controller (fst (streamChatCompletion st messages ragActive))
           = Some (length (openedTransports (cs_effects st))) \<and>
         openedTransports (cs_effects (fst (streamChatCompletion st messages ragActive)))
           = openedTransports (cs_effects st) @ [length (openedTransports (cs_effects st))] \<and>
         set (liveTransports (cs_effects st))
           \<subseteq> set (liveTransports (cs_effects (fst (streamChatCompletion st messages ragActive)))) \<and>
         abortedHandles (cs_effects (streamTemplateCompletion st template skipMessage ragActive))
           = abortedHandles (cs_effects st) \<and>
         cs_completion (streamTemplateCompletion st template skipMessage ragActive) = [] \<and>
         cs_controller (streamTemplateCompletion st template skipMessage ragActive)
           = Some (length (openedTransports (cs_effects st))) \<and>
         openedTransports (cs_effects (streamTemplateCompletion st template skipMessage ragActive))
           = openedTransports (cs_effects st) @ [length (openedTransports (cs_effects st))] \<and>
         set (liveTransports (cs_effects st))
           \<subseteq> set (liveTransports
                   (cs_effects (streamTemplateCompletion st template skipMessage ragActive)))"
proof -
  let ?p = "updateLoadingMessage ''Thinking''
              (getRagContext ragActive (sendEditorLanguage (st\<lparr>cs_completion := []\<rparr>)))"
  have pp: "cs_provider ?p \<noteq> None"
    using assms(1) by (simp add: chat_prelude_fields)
  have chat: "fst (streamChatCompletion st messages ragActive) = streamResponse ?p"
    using assms(2) pp by (auto simp: streamChatCompletion_def Let_def)
  let ?t = "getTemplateMessages st template skipMessage ragActive"
  have pt: "cs_provider ?t \<noteq> None"
    using assms(1) by (simp add: template_prelude_fields)
  have tmpl: "streamTemplateCompletion st template skipMessage ragActive = streamResponse ?t"
    using pt by (auto simp: streamTemplateCompletion_def Let_def)
  have ca: "abortedHandles (cs_effects (streamResponse ?p)) = abortedHandles (cs_effects st)"
    by (simp add: streamResponse_fields chat_prelude_fields)
  have co: "openedTransports (cs_effects (streamResponse ?p))
              = openedTransports (cs_effects st) @ [length (openedTransports (cs_effects st))]"
    by (simp add: streamResponse_fields chat_prelude_fields)
  have ta: "abortedHandles (cs_effects (streamResponse ?t)) = abortedHandles (cs_effects st)"
    by (simp add: streamResponse_fields template_prelude_fields)
  have to: "openedTransports (cs_effects (streamResponse ?t))
              = openedTransports (cs_effects st) @ [length (openedTransports (cs_effects st))]"
    by (simp add: streamResponse_fields template_prelude_fields)
  have cc: "cs_controller (streamResponse ?p) = Some (length (openedTransports (cs_effects st)))"
    by (simp add: streamResponse_fields chat_prelude_fields)
  have tc: "cs_controller (streamResponse ?t) = Some (length (openedTransports (cs_effects st)))"
    by (simp add: streamResponse_fields template_prelude_fields)
  have ce: "cs_completion (streamResponse ?p) = []"
    by (simp add: streamResponse_completion chat_prelude_completion)
  have te: "cs_completion (streamResponse ?t) = []"
    by (simp add: streamResponse_completion template_prelude_completion)
  show ?thesis
    unfolding chat tmpl
    using ca co ta to cc tc ce te liveTransports_kept [OF ca co] liveTransports_kept [OF ta to]
    by (intro conjI)
qed

theorem new_session_keeps_prior_transport_witness:
  "cs_provider (fst (streamChatCompletion idleService [userMessage] False)) \<noteq> None \<and>
   cs_controller (fst (streamChatCompletion idleService [userMessage] False)) = Some 0 \<and>
   abortedHandles (cs_effects
      (fst (streamChatCompletion (fst (streamChatCompletion idleService [userMessage] False))
              [userMessage] False))) = [] \<and>
   cs_controller
      (fst (streamChatCompletion (fst (streamChatCompletion idleService [userMessage] False))
              [userMessage] False)) = Some 1 \<and>
   openedTransports (cs_effects
      (fst (streamChatCompletion (fst (streamChatCompletion idleService [userMessage] False))
              [userMessage] False))) = [0, 1]"
proof -
  let ?s1 = "fst (streamChatCompletion idleService [userMessage] False)"
  have p: "cs_provider ?s1 \<noteq> None"
    by code_simp
  have m: "[userMessage] \<noteq> []"
    by simp
  have c: "cs_controller ?s1 = Some 0"
    by code_simp
  have a: "abortedHandles (cs_effects ?s1) = []"
    by code_simp
  have opn: "openedTransports (cs_effects ?s1) = [0]"
    by code_simp
  from new_session_keeps_prior_transport [OF p m, of False "''explain''" False]
  show ?thesis
    using p c a opn by simp
qed

text \<open>
  C1 as stated fails. A first session opens transport \<open>0\<close>. A second session, started
  while the first stream has neither ended nor been cancelled, opens transport \<open>1\<close>;
  the effects of the second call hold no \<open>Abort\<close>, and both transports are live.
  A cancellation after that aborts the second transport only.
\<close>

theorem new_session_keeps_prior_transport_counterexample:
  "cs_controller (fst (streamChatCompletion idleService [userMessage] False)) = Some 0 \<and>
   liveTransports (cs_effects (fst (streamChatCompletion idleService [userMessage] False))) = [0] \<and>
   cs_effects
      (fst (streamChatCompletion (fst (streamChatCompletion idleService [userMessage] False))
              [userMessage] False))
     = [PostMessage TwinnySendLanguage, PostMessage (TwinnySendLoader ''Thinking''),
        SetGeneratingText True, OpenTransport 0,
        PostMessage TwinnySendLanguage, PostMessage (TwinnySendLoader ''Thinking''),
        SetGeneratingText True, OpenTransport 1] \<and>
   liveTransports (cs_effects
      (fst (streamChatCompletion (fst (streamChatCompletion idleService [userMessage] False))
              [userMessage] False))) = [0, 1] \<and>
   liveTransports (cs_effects
      (streamTemplateCompletion (fst (streamChatCompletion idleService [userMessage] False))
              ''explain'' False False)) = [0, 1] \<and>
   liveTransports (cs_effects
      (destroyStream
         (fst (streamChatCompletion (fst (streamChatCompletion idleService [userMessage] False))
                 [userMessage] False)))) = [0]"
  by code_simp

text \<open>
  C6 (as amended). With an \<open>onEnd\<close> handler, a chunk adds no effect at all, so no
  incremental event. When a provider is configured and the decoder returns a delta, the
  delta is appended to the accumulated text, and without a handler exactly one
  incremental event is posted to an attached view: it carries the accumulated text with
  its leading white space trimmed. When no provider is configured or the decoder throws,
  the chunk changes nothing and posts nothing.
\<close>

theorem onStreamData_events:
  "cs_effects (onStreamData st chunk True) = cs_effects st \<and>
   (cs_provider st = Some p \<and> getChatDataFromProvider p chunk = Inr data \<longrightarrow>
      cs_completion (onStreamData st chunk onEnd) = jsConcat (cs_completion st) data \<and>
      cs_effects (onStreamData st chunk False) =
        cs_effects st @
          (if cs_view st
           then [PostMessage (TwinnyOnCompletion (jsTrimStart (jsConcat (cs_completion st) data))
                                (cs_promptTemplate st))]
           else [])) \<and>
   (cs_provider st = None \<or> cs_provider st = Some p \<and> getChatDataFromProvider p chunk = Inl e
      \<longrightarrow> onStreamData st chunk onEnd = st)"
proof -
  have a: "cs_effects (onStreamData st chunk True) = cs_effects st"
    by (simp add: onStreamData_def Let_def split: option.splits sum.splits)
  have b: "cs_provider st = Some p \<and> getChatDataFromProvider p chunk = Inr data \<longrightarrow>
      cs_completion (onStreamData st chunk onEnd) = jsConcat (cs_completion st) data \<and>
      cs_effects (onStreamData st chunk False) =
        cs_effects st @
          (if cs_view st
           then [PostMessage (TwinnyOnCompletion (jsTrimStart (jsConcat (cs_completion st) data))
                                (cs_promptTemplate st))]
           else [])"
    by (simp add: onStreamData_def Let_def postMessage_def emit_def)
  have c: "cs_provider st = None \<or>
           cs_provider st = Some p \<and> getChatDataFromProvider p chunk = Inl e
      \<longrightarrow> onStreamData st chunk onEnd = st"
    by (auto simp: onStreamData_def)
  from a b c show ?thesis
    by (intro conjI)
qed

theorem onStreamData_events_witness:
  "cs_effects (onStreamData idleService (Some spaceHiChunk) True) = [] \<and>
   cs_completion (onStreamData idleService (Some spaceHiChunk) True) = '' hi'' \<and>
   cs_effects (onStreamData idleService (Some spaceHiChunk) False)
     = [PostMessage (TwinnyOnCompletion ''hi'' [])] \<and>
   onStreamData idleService (Some noChoicesChunk) False = idleService"
proof -
  have p: "cs_provider idleService = Some Ollama"
    by (simp add: idleService_def)
  have d: "getChatDataFromProvider Ollama (Some spaceHiChunk) = Inr (Some '' hi'')"
    by code_simp
  have e: "getChatDataFromProvider Ollama (Some noChoicesChunk) = Inl TypeError"
    by code_simp
  have t: "jsTrimStart (jsConcat [] (Some '' hi'')) = ''hi''"
    by code_simp
  have j: "jsConcat [] (Some '' hi'') = '' hi''"
    by code_simp
  have i: "cs_effects idleService = [] \<and> cs_completion idleService = [] \<and>
           cs_view idleService \<and> cs_promptTemplate idleService = []"
    by (simp add: idleService_def)
  from onStreamData_events
         [of idleService "Some spaceHiChunk" Ollama "Some '' hi''" True TypeError]
       onStreamData_events
         [of idleService "Some noChoicesChunk" Ollama "Some '' hi''" False TypeError]
  show ?thesis
    using p d e t j i by simp
qed

text \<open>
  C6 as stated fails. Without a handler, the chunk whose delta is a space and \<open>hi\<close>
  makes the accumulated text that delta, and the one event carries \<open>hi\<close> without the
  space: not the full accumulated text. The chunk with an empty \<open>choices\<close> array makes
  the decoder throw, and no event is posted for it.
\<close>

theorem onStreamData_events_counterexample:
  "cs_completion (onStreamData idleService (Some spaceHiChunk) False) = '' hi'' \<and>
   postedMessages (cs_effects (onStreamData idleService (Some spaceHiChunk) False))
     = [TwinnyOnCompletion ''hi'' []] \<and>
   ''hi'' \<noteq> '' hi'' \<and>
   getChatDataFromProvider Ollama (Some noChoicesChunk) = Inl TypeError \<and>
   postedMessages (cs_effects (onStreamData idleService (Some noChoicesChunk) False)) = []"
  by code_simp

text \<open>
  C8 (as amended). \<open>destroyStream\<close> has no throwing step: the calls on the view and
  on the abort controller are guarded, and the model has no error result. In every
  state, active or not, it does the same: it calls \<open>abort()\<close> on the tracked abort
  controller when there is one, sets the status bar text, issues the context command and
  posts one terminal end event, with the trimmed accumulated text, to an attached view;
  the tracked controller and the accumulated text stay as they are. The controller is
  never cleared, so after a stream has ended its controller is still the tracked one.
\<close>

theorem destroyStream_effects:
  "cs_effects (destroyStream st) =
     cs_effects st
       @ (case cs_controller st of None \<Rightarrow> [] | Some h \<Rightarrow> [Abort h])
       @ [SetGeneratingText True]
       @ (if cs_view st
          then [PostMessage (TwinnyOnEnd (jsTrimStart (cs_completion st)) (cs_promptTemplate st))]
          else []) \<and>
   cs_controller (destroyStream st) = cs_controller st \<and>
   cs_completion (destroyStream st) = cs_completion st \<and>
   cs_statusBar (destroyStream st) = RobotFace"
  by (simp add: destroyStream_def abortController_def Let_def postMessage_def emit_def
      split: option.splits)

theorem destroyStream_effects_witness:
  "cs_effects (destroyStream idleService)
     = [SetGeneratingText True, PostMessage (TwinnyOnEnd [] [])] \<and>
   cs_controller endedService = Some 0 \<and>
   cs_effects (destroyStream endedService)
     = cs_effects endedService
         @ [Abort 0, SetGeneratingText True, PostMessage (TwinnyOnEnd [] [])]"
proof -
  have i: "cs_effects idleService = [] \<and> cs_completion idleService = [] \<and>
           cs_view idleService \<and> cs_promptTemplate idleService = [] \<and>
           cs_controller idleService = None"
    by (simp add: idleService_def)
  have e: "cs_controller endedService = Some 0 \<and> cs_completion endedService = [] \<and>
           cs_view endedService \<and> cs_promptTemplate endedService = []"
    by code_simp
  have t: "jsTrimStart [] = []"
    by (simp add: jsTrimStart_def)
  from destroyStream_effects [of idleService] destroyStream_effects [of endedService]
  show ?thesis
    using i e t by simp
qed

text \<open>
  C8 as stated fails: \<open>destroyStream\<close> is not a no-op on a controller that is not
  streaming. Before any stream it issues the context command and posts an end event.
  After a stream has ended it also calls \<open>abort()\<close> on the controller of that stream.
\<close>

theorem destroyStream_effects_counterexample:
  "cs_controller idleService = None \<and>
   cs_effects idleService = [] \<and>
   cs_effects (destroyStream idleService)
     = [SetGeneratingText True, PostMessage (TwinnyOnEnd [] [])] \<and>
   destroyStream idleService \<noteq> idleService \<and>
   abortedHandles (cs_effects endedService) = [] \<and>
   abortedHandles (cs_effects (destroyStream endedService)) = [0] \<and>
   destroyStream endedService \<noteq> endedService"
  by code_simp

end
